theory Spec2Isabelle
  imports Main "HOL-Library.Sublist"
begin

section \<open>Python strings\<close>

text \<open>
  A Python \<open>str\<close> is modelled as a \<open>string\<close> whose characters are the code points
  0..255. On that range \<open>str.isspace\<close> holds exactly for the code points
  9..13, 28..32, 133 and 160, and \<open>str.lower\<close> adds 32 to the code points 65..90,
  192..214 and 216..222 and leaves every other one alone.
\<close>

definition isspace :: "char \<Rightarrow> bool" where
  "isspace c =
     (let n = (of_char c :: nat)
      in (9 \<le> n \<and> n \<le> 13) \<or> (28 \<le> n \<and> n \<le> 32) \<or> n = 133 \<or> n = 160)"

text \<open>\<open>s.strip()\<close>: whitespace is removed from both ends.\<close>

definition strip :: "string \<Rightarrow> string" where
  "strip s = rev (dropWhile isspace (rev (dropWhile isspace s)))"

definition lower_char :: "char \<Rightarrow> char" where
  "lower_char c =
     (let n = (of_char c :: nat)
      in if (65 \<le> n \<and> n \<le> 90) \<or> (192 \<le> n \<and> n \<le> 214) \<or> (216 \<le> n \<and> n \<le> 222)
         then char_of (n + 32) else c)"

text \<open>\<open>s.lower()\<close>.\<close>

definition lower :: "string \<Rightarrow> string" where
  "lower s = map lower_char s"

text \<open>\<open>s.startswith(p)\<close>.\<close>

definition startswith :: "string \<Rightarrow> string \<Rightarrow> bool" where
  "startswith s p = (take (length p) s = p)"

text \<open>\<open>sub in s\<close>: \<open>sub\<close> occurs in \<open>s\<close> at some position.\<close>

fun contains :: "string \<Rightarrow> string \<Rightarrow> bool" where
  "contains [] sub = (sub = [])"
| "contains (c # cs) sub = (startswith (c # cs) sub \<or> contains cs sub)"

text \<open>
  \<open>s.replace(old, new)\<close>: the occurrences of \<open>old\<close> are found from left to right,
  without overlap, and the text after a replaced occurrence is not scanned again from
  inside it. With an empty \<open>old\<close>, Python puts \<open>new\<close> around every character.
\<close>

function replace :: "string \<Rightarrow> string \<Rightarrow> string \<Rightarrow> string" where
  "replace [] old new = (if old = [] then new else [])"
| "replace (c # cs) old new =
     (if old = [] then new @ c # replace cs old new
      else if startswith (c # cs) old then new @ replace (drop (length old) (c # cs)) old new
      else c # replace cs old new)"
  by pat_completeness auto
termination
  by (relation "measure (\<lambda>(s, old, new). length s)") auto

text \<open>
  \<open>s.split(sep)\<close> for a separator of one character. The result is never empty, so
  \<open>parts[0]\<close> always exists; \<open>first_part\<close> reads it.
\<close>

fun str_split :: "char \<Rightarrow> string \<Rightarrow> string list" where
  "str_split sep [] = [[]]"
| "str_split sep (c # cs) =
     (if c = sep then [] # str_split sep cs
      else (case str_split sep cs of [] \<Rightarrow> [[c]] | p # ps \<Rightarrow> (c # p) # ps))"

fun first_part :: "string list \<Rightarrow> string" where
  "first_part [] = []"
| "first_part (p # ps) = p"

text \<open>Python's truth value of an optional string: \<open>None\<close> and \<open>""\<close> are false.\<close>

fun truthy :: "string option \<Rightarrow> bool" where
  "truthy None = False"
| "truthy (Some s) = (s \<noteq> [])"

section \<open>agent.py\<close>

text \<open>
  \<open>get_biographies\<close> of \<open>agent.py\<close>, as its two branches are written. The dictionaries
  are association lists in the order of their keys.
\<close>

definition get_biographies :: "string \<Rightarrow> (string \<times> string) list" where
  "get_biographies name =
     (if lower name = ''Pedro Sanchez''
      then [(''status'', ''success''),
            (''report'', ''Pedro Sanchez, was born in ... on ....  He as politician from PSOE'')]
      else [(''status'', ''error''),
            (''error_message'',
               '' The is no information available for '' @ [CHR 0x27] @ name @ [CHR 0x27])])"

text \<open>
  The names bound at module level when \<open>root_agent\<close> is built (the three imports and
  the two functions the file defines), and the names its \<open>tools\<close> list refers to.
\<close>

definition module_names :: "string list" where
  "module_names =
     [''datetime'', ''ZoneInfo'', ''Agent'', ''get_biographies'', ''get_current_time'']"

definition root_agent_tools :: "string list" where
  "root_agent_tools = [''get_biographies'', ''get_from_different_sources'']"

definition undefined_references :: "string list \<Rightarrow> string list \<Rightarrow> string list" where
  "undefined_references bound refs = filter (\<lambda>n. n \<notin> set bound) refs"

section \<open>Exceptions and log records\<close>

text \<open>
  A raised exception carries its class name and its message (\<open>str(e)\<close>). Python's
  \<open>except Exception\<close> catches the instances of \<open>Exception\<close> only: an instance of
  \<open>BaseException\<close> that is not one (\<open>KeyboardInterrupt\<close>, \<open>SystemExit\<close>,
  \<open>GeneratorExit\<close>, \<open>asyncio.CancelledError\<close>) passes through such a handler.
\<close>

datatype exn =
  ExceptionInstance string string
| BaseExceptionOnly string string

fun is_Exception :: "exn \<Rightarrow> bool" where
  "is_Exception (ExceptionInstance cls msg) = True"
| "is_Exception (BaseExceptionOnly cls msg) = False"

fun message :: "exn \<Rightarrow> string" where
  "message (ExceptionInstance cls msg) = msg"
| "message (BaseExceptionOnly cls msg) = msg"

text \<open>What reading an attribute of \<open>None\<close> raises.\<close>

definition none_has_no_attribute :: "string \<Rightarrow> exn" where
  "none_has_no_attribute attr =
     ExceptionInstance ''AttributeError''
       ([CHR 0x27] @ ''NoneType'' @ [CHR 0x27] @ '' object has no attribute ''
          @ [CHR 0x27] @ attr @ [CHR 0x27])"

datatype level = INFO | WARNING | ERROR

type_synonym log_record = "level \<times> string"

section \<open>The search tool and the agents\<close>

record tavily_config =
  max_results :: int
  search_depth :: string
  include_answer :: bool
  include_raw_content :: bool
  include_images :: bool

text \<open>
  The search object is its configuration; \<open>LangchainTool\<close> wraps it for the agent
  framework.
\<close>

datatype tavily_search = TavilySearchResults tavily_config

datatype tool = LangchainTool tavily_search

fun tool_config :: "tool \<Rightarrow> tavily_config" where
  "tool_config (LangchainTool (TavilySearchResults cfg)) = cfg"

text \<open>
  The two agent classes the module imports: an LLM agent with its name, model,
  instruction, tools and output key, and a sequential agent with its name and sub-agents.
\<close>

datatype agent =
  Agent string string "string option" "tool list" string
| SequentialAgent string "agent list"

fun agent_name :: "agent \<Rightarrow> string" where
  "agent_name (Agent nm mdl ins tls key) = nm"
| "agent_name (SequentialAgent nm subs) = nm"

fun agent_tools :: "agent \<Rightarrow> tool list" where
  "agent_tools (Agent nm mdl ins tls key) = tls"
| "agent_tools (SequentialAgent nm subs) = []"

text \<open>
  Modelled from the spec: the run order of the framework's \<open>SequentialAgent\<close>, which is
  not code of this repository. The spec's contract for a composite is that its stages
  execute strictly in order, each nested sequence as a whole before the next stage. The
  order is a function of the agent tree alone: no session state enters it.
\<close>

fun execution_order :: "agent \<Rightarrow> agent list" where
  "execution_order (Agent nm mdl ins tls key) = [Agent nm mdl ins tls key]"
| "execution_order (SequentialAgent nm subs) = concat (map execution_order subs)"

section \<open>Events, session state and the runner\<close>

datatype part = Part "string option"

fun part_text :: "part \<Rightarrow> string option" where
  "part_text (Part t) = t"

datatype content = Content "part list option"

record event =
  is_final_response :: bool
  ev_content :: "content option"

text \<open>\<open>event.content and event.content.parts\<close>: a content object with a non-empty list.\<close>

fun has_parts :: "event \<Rightarrow> bool" where
  "has_parts ev =
     (case ev_content ev of
        None \<Rightarrow> False
      | Some (Content None) \<Rightarrow> False
      | Some (Content (Some [])) \<Rightarrow> False
      | Some (Content (Some (p # ps))) \<Rightarrow> True)"

text \<open>\<open>event.content.parts[0].text\<close>, read only where \<open>has_parts\<close> holds.\<close>

fun first_text :: "event \<Rightarrow> string option" where
  "first_text ev =
     (case ev_content ev of
        Some (Content (Some (p # ps))) \<Rightarrow> part_text p
      | _ \<Rightarrow> None)"

type_synonym state = "string \<rightharpoonup> string"

record request =
  req_user_id :: "string option"
  req_session_id :: string
  new_message :: string

text \<open>
  The runner belongs to the framework. What the driver sees of one run is the sequence
  of things the event generator does while it is iterated: it commits a field to the
  session state, yields an event, or raises. A run is a finite list of such actions,
  chosen by the runner from the session state and the request.
\<close>

datatype action =
  Write string string
| Emit event
| Raise exn

type_synonym runner = "state \<Rightarrow> request \<Rightarrow> action list"

section \<open>BaseResearchFlow\<close>

record flow =
  model_name :: string
  session :: "state option"
  runner :: "runner option"
  session_id :: string
  app_name :: "string option"
  user_id :: "string option"
  researcher_instructions :: "string option"
  answer_instructions :: "string option"
  reviewer_instructions :: "string option"
  refiner_instructions :: "string option"
  tavily_tool :: tool
  research_agent :: agent
  answer_agent :: agent
  reviewer_agent :: agent
  refiner_agent :: agent
  base_workflow :: agent
  workflow_agent :: agent

text \<open>
  The arguments of the constructor, with the session id that \<open>uuid.uuid4()\<close> draws.
\<close>

record init_args =
  arg_model_name :: string
  arg_researcher_instructions :: "string option"
  arg_reviewer_instructions :: "string option"
  arg_refiner_instructions :: "string option"
  arg_answer_instructions :: "string option"
  arg_app_name :: "string option"
  arg_user_id :: "string option"
  arg_uuid :: string

text \<open>
  The two constructors of the tool libraries: each either succeeds or raises, depending
  on the configuration it is given.
\<close>

record tool_env =
  tavily_ctor :: "tavily_config \<Rightarrow> exn option"
  langchain_ctor :: "tavily_search \<Rightarrow> exn option"

definition search_config :: tavily_config where
  "search_config =
     \<lparr>max_results = 10, search_depth = ''advanced'', include_answer = False,
      include_raw_content = True, include_images = False\<rparr>"

text \<open>
  The handler of \<open>_setup_tools\<close>: \<open>except Exception as e\<close> logs and raises again; any
  other exception is not caught at all. The result is the exception that leaves the
  method, with the log records written.
\<close>

definition setup_tools_handler :: "exn \<Rightarrow> (exn + tool) \<times> log_record list" where
  "setup_tools_handler e =
     (if is_Exception e
      then (Inl e, [(ERROR, ''Failed to initialize Tavily search tool: '' @ message e)])
      else (Inl e, []))"

definition setup_tools :: "tool_env \<Rightarrow> (exn + tool) \<times> log_record list" where
  "setup_tools env =
     (case tavily_ctor env search_config of
        Some e \<Rightarrow> setup_tools_handler e
      | None \<Rightarrow>
          (case langchain_ctor env (TavilySearchResults search_config) of
             Some e \<Rightarrow> setup_tools_handler e
           | None \<Rightarrow> (Inr (LangchainTool (TavilySearchResults search_config)), [])))"

text \<open>\<open>__init__\<close> up to the call of \<open>_setup_tools\<close>, then \<open>_setup_agents\<close>.\<close>

definition setup_agents :: "init_args \<Rightarrow> tool \<Rightarrow> flow" where
  "setup_agents a tl0 =
     (let research = Agent ''ResearchAgent'' (arg_model_name a)
                       (arg_researcher_instructions a) [tl0] ''research_data'';
          answer = Agent ''AnswerAgent'' (arg_model_name a)
                     (arg_answer_instructions a) [] ''answer_summary'';
          reviewer = Agent ''ReviewerAgent'' (arg_model_name a)
                       (arg_reviewer_instructions a) [] ''review_result'';
          refiner = Agent ''RefinerAgent'' (arg_model_name a)
                      (arg_refiner_instructions a) [] ''refinement_action'';
          base = SequentialAgent ''BaseResearchWorkflow'' [research, answer];
          workflow = SequentialAgent ''IterativeResearchWorkflow'' [base, reviewer]
      in \<lparr>model_name = arg_model_name a, session = None, runner = None,
          session_id = arg_uuid a, app_name = arg_app_name a, user_id = arg_user_id a,
          researcher_instructions = arg_researcher_instructions a,
          answer_instructions = arg_answer_instructions a,
          reviewer_instructions = arg_reviewer_instructions a,
          refiner_instructions = arg_refiner_instructions a,
          tavily_tool = tl0, research_agent = research, answer_agent = answer,
          reviewer_agent = reviewer, refiner_agent = refiner, base_workflow = base,
          workflow_agent = workflow\<rparr>)"

definition init :: "tool_env \<Rightarrow> init_args \<Rightarrow> (exn + flow) \<times> log_record list" where
  "init env a =
     (case setup_tools env of
        (Inl e, lg) \<Rightarrow> (Inl e, lg)
      | (Inr tl0, lg) \<Rightarrow> (Inr (setup_agents a tl0), lg))"

text \<open>
  \<open>_setup_session_and_runner\<close>: the framework's session service and \<open>Runner\<close>
  constructor either succeed or raise. The session is the state mapping it holds.
\<close>

record framework =
  create_session :: "string option \<Rightarrow> string option \<Rightarrow> string \<Rightarrow> exn + state"
  new_runner :: "agent \<Rightarrow> string option \<Rightarrow> exn + runner"

definition setup_session_handler :: "exn \<Rightarrow> log_record list" where
  "setup_session_handler e =
     (if is_Exception e
      then [(ERROR, ''Failed to initialize session and runner: '' @ message e)]
      else [])"

definition setup_session_and_runner ::
    "framework \<Rightarrow> flow \<Rightarrow> exn option \<times> flow \<times> log_record list" where
  "setup_session_and_runner fw self =
     (case create_session fw (app_name self) (user_id self) (session_id self) of
        Inl e \<Rightarrow> (Some e, self, setup_session_handler e)
      | Inr st \<Rightarrow>
          (case new_runner fw (workflow_agent self) (app_name self) of
             Inl e \<Rightarrow> (Some e, self\<lparr>session := Some st\<rparr>, setup_session_handler e)
           | Inr run \<Rightarrow>
               (None, self\<lparr>session := Some st, runner := Some run\<rparr>,
                [(INFO, ''Session and runner initialized successfully'')])))"

subsection \<open>research\_person\<close>

text \<open>
  The \<open>async for\<close> loop over the runner's actions. It threads the session state and
  the events the loop body has received, and ends in one of three ways: the generator
  raised, the loop reached \<open>break\<close>, or the generator was exhausted. The \<open>break\<close>
  stands under both tests, \<open>event.is_final_response()\<close> and
  \<open>event.content and event.content.parts\<close>; after it the generator is not resumed, so
  the actions that remain are never performed. What the method prints to standard
  output is left out of the model.
\<close>

record loop_out =
  raised :: "exn option"
  broke :: bool
  final_response :: "string option"
  state_after :: state
  seen :: "event list"

fun consume :: "action list \<Rightarrow> state \<Rightarrow> event list \<Rightarrow> loop_out" where
  "consume [] st evs =
     \<lparr>raised = None, broke = False, final_response = None, state_after = st, seen = evs\<rparr>"
| "consume (Write k v # acts) st evs = consume acts (st(k \<mapsto> v)) evs"
| "consume (Raise e # acts) st evs =
     \<lparr>raised = Some e, broke = False, final_response = None, state_after = st, seen = evs\<rparr>"
| "consume (Emit ev # acts) st evs =
     (if is_final_response ev then
        (if has_parts ev then
           \<lparr>raised = None, broke = True, final_response = first_text ev,
            state_after = st, seen = evs @ [ev]\<rparr>
         else consume acts st (evs @ [ev]))
      else consume acts st (evs @ [ev]))"

text \<open>
  The handler of \<open>research_person\<close>: \<open>except Exception as e\<close> logs and returns
  \<open>None\<close>. \<open>Inl\<close> is an exception that reaches the caller, \<open>Inr\<close> a returned value.
\<close>

definition research_handler ::
    "exn \<Rightarrow> log_record list \<Rightarrow> (exn + string option) \<times> log_record list" where
  "research_handler e lg =
     (if is_Exception e
      then (Inr None, lg @ [(ERROR, ''Error during iterative research workflow: '' @ message e)])
      else (Inl e, lg))"

text \<open>The statements after the loop.\<close>

definition resolve ::
    "state \<Rightarrow> string option \<Rightarrow> log_record list \<Rightarrow> (exn + string option) \<times> log_record list" where
  "resolve st fr lg =
     (let answer_summary = st ''answer_summary''
      in if truthy answer_summary then (Inr answer_summary, lg)
         else if truthy fr then (Inr fr, lg)
         else (Inr None, lg @ [(WARNING, ''No final summary available after workflow completion'')]))"

record run_result =
  ret :: "exn + string option"
  flow_after :: flow
  logs :: "log_record list"
  runner_calls :: "request list"
  observed :: "event list"

definition user_message :: "string \<Rightarrow> string" where
  "user_message person_name =
     ''Research and create an early life biography section summary for '' @ person_name"

definition run_request :: "flow \<Rightarrow> string \<Rightarrow> request" where
  "run_request self person_name =
     \<lparr>req_user_id = user_id self, req_session_id = session_id self,
      new_message = user_message person_name\<rparr>"

definition seeded :: "state \<Rightarrow> string \<Rightarrow> state" where
  "seeded st person_name = st(''person_name'' \<mapsto> strip person_name)"

definition start_log :: "string \<Rightarrow> log_record list" where
  "start_log person_name =
     [(INFO, ''Starting iterative research workflow for: '' @ person_name)]"

definition research_person :: "flow \<Rightarrow> string \<Rightarrow> run_result" where
  "research_person self person_name =
     (if person_name = [] \<or> strip person_name = [] then
        \<lparr>ret = Inr None, flow_after = self,
         logs = [(ERROR, ''Person name cannot be empty'')],
         runner_calls = [], observed = []\<rparr>
      else
        (case session self of
           None \<Rightarrow>
             (case research_handler (none_has_no_attribute ''state'') [] of
                (r, lg) \<Rightarrow>
                  \<lparr>ret = r, flow_after = self, logs = lg, runner_calls = [], observed = []\<rparr>)
         | Some st \<Rightarrow>
             (case runner self of
                None \<Rightarrow>
                  (case research_handler (none_has_no_attribute ''run_async'')
                          (start_log person_name) of
                     (r, lg) \<Rightarrow>
                       \<lparr>ret = r, flow_after = self\<lparr>session := Some (seeded st person_name)\<rparr>,
                        logs = lg, runner_calls = [], observed = []\<rparr>)
              | Some run \<Rightarrow>
                  (let req = run_request self person_name;
                       out = consume (run (seeded st person_name) req) (seeded st person_name) [];
                       self' = self\<lparr>session := Some (state_after out)\<rparr>
                   in case raised out of
                        Some e \<Rightarrow>
                          (case research_handler e (start_log person_name) of
                             (r, lg) \<Rightarrow>
                               \<lparr>ret = r, flow_after = self', logs = lg,
                                runner_calls = [req], observed = seen out\<rparr>)
                      | None \<Rightarrow>
                          (case resolve (state_after out) (final_response out)
                                  (start_log person_name @
                                     (if broke out
                                      then [(INFO, ''Iterative research workflow completed successfully'')]
                                      else [])) of
                             (r, lg) \<Rightarrow>
                               \<lparr>ret = r, flow_after = self', logs = lg,
                                runner_calls = [req], observed = seen out\<rparr>)))))"

subsection \<open>The accessors\<close>

text \<open>\<open>self.session.state.get(key) if self.session else None\<close>.\<close>

definition state_get :: "flow \<Rightarrow> string \<Rightarrow> string option" where
  "state_get self key = (case session self of None \<Rightarrow> None | Some st \<Rightarrow> st key)"

definition get_research_data :: "flow \<Rightarrow> string option" where
  "get_research_data self = state_get self ''research_data''"

definition get_review_feedback :: "flow \<Rightarrow> string option" where
  "get_review_feedback self =
     (case state_get self ''review_result'' of
        None \<Rightarrow> None
      | Some review_result \<Rightarrow>
          if review_result \<noteq> [] then
            (if contains review_result ''APPROVED:''
             then Some (strip (replace review_result ''APPROVED:'' []))
             else if contains review_result ''NEEDS_IMPROVEMENT:''
             then Some (strip (replace (first_part (str_split (CHR ''|'') review_result))
                                 ''NEEDS_IMPROVEMENT:'' []))
             else None)
          else None)"

definition get_review_status :: "flow \<Rightarrow> string option" where
  "get_review_status self =
     (case state_get self ''review_result'' of
        None \<Rightarrow> None
      | Some review_result \<Rightarrow>
          if review_result \<noteq> [] then
            (if startswith review_result ''APPROVED:'' then Some ''APPROVED''
             else if startswith review_result ''NEEDS_IMPROVEMENT:'' then Some ''NEEDS_IMPROVEMENT''
             else None)
          else None)"

section \<open>Example objects\<close>

text \<open>
  A flow as \<open>main.py\<close> builds it, with a given session state and runner, a runner that
  plays a fixed list of actions, and some events.
\<close>

definition demo_args :: init_args where
  "demo_args =
     \<lparr>arg_model_name = ''gemini-1.5-flash-latest'',
      arg_researcher_instructions = Some ''research'',
      arg_reviewer_instructions = Some ''review'',
      arg_refiner_instructions = Some ''refine'',
      arg_answer_instructions = Some ''answer'',
      arg_app_name = Some ''test_app_name'',
      arg_user_id = Some ''test_user_id'',
      arg_uuid = ''00000000-0000-4000-8000-000000000000''\<rparr>"

definition demo_tool :: tool where
  "demo_tool = LangchainTool (TavilySearchResults search_config)"

definition demo_flow :: "state option \<Rightarrow> runner option \<Rightarrow> flow" where
  "demo_flow st run = (setup_agents demo_args demo_tool)\<lparr>session := st, runner := run\<rparr>"

definition scripted :: "action list \<Rightarrow> runner" where
  "scripted acts = (\<lambda>st req. acts)"

definition demo_run :: "action list \<Rightarrow> flow" where
  "demo_run acts = demo_flow (Some Map.empty) (Some (scripted acts))"

definition text_event :: "bool \<Rightarrow> string \<Rightarrow> event" where
  "text_event fin t =
     \<lparr>is_final_response = fin, ev_content = Some (Content (Some [Part (Some t)]))\<rparr>"

definition bare_final_event :: event where
  "bare_final_event = \<lparr>is_final_response = True, ev_content = None\<rparr>"

definition review_flow :: "string \<Rightarrow> flow" where
  "review_flow r = demo_flow (Some [''review_result'' \<mapsto> r]) None"

definition ok_env :: tool_env where
  "ok_env = \<lparr>tavily_ctor = (\<lambda>cfg. None), langchain_ctor = (\<lambda>t. None)\<rparr>"

definition missing_key_env :: tool_env where
  "missing_key_env =
     \<lparr>tavily_ctor = (\<lambda>cfg. Some (ExceptionInstance ''ValidationError'' ''Did not find tavily_api_key'')),
      langchain_ctor = (\<lambda>t. None)\<rparr>"

definition interrupted_env :: tool_env where
  "interrupted_env =
     \<lparr>tavily_ctor = (\<lambda>cfg. Some (BaseExceptionOnly ''KeyboardInterrupt'' [])),
      langchain_ctor = (\<lambda>t. None)\<rparr>"

section \<open>Reading a run\<close>

text \<open>
  Not code of the repository, but the words the properties are stated in: the events
  among a list of actions, whether an action raises, the condition under which the
  loop leaves (\<open>stops\<close>), and the part of a list up to and including its first element
  with a given property.
\<close>

fun events_of :: "action list \<Rightarrow> event list" where
  "events_of [] = []"
| "events_of (Emit ev # acts) = ev # events_of acts"
| "events_of (Write k v # acts) = events_of acts"
| "events_of (Raise e # acts) = events_of acts"

fun is_Raise :: "action \<Rightarrow> bool" where
  "is_Raise (Raise e) = True"
| "is_Raise (Emit ev) = False"
| "is_Raise (Write k v) = False"

definition stops :: "event \<Rightarrow> bool" where
  "stops ev = (is_final_response ev \<and> has_parts ev)"

fun upto_first :: "('a \<Rightarrow> bool) \<Rightarrow> 'a list \<Rightarrow> 'a list" where
  "upto_first P [] = []"
| "upto_first P (x # xs) = (if P x then [x] else x # upto_first P xs)"

section \<open>Properties\<close>

lemma lower_char_not_P: "lower_char c \<noteq> CHR ''P''"
proof
  assume h: "lower_char c = CHR ''P''"
  have "(of_char (lower_char c) :: nat) = 80" unfolding h by simp
  moreover have "(of_char (lower_char c) :: nat) \<noteq> 80"
    by (auto simp: lower_char_def Let_def)
  ultimately show False by simp
qed

lemma lower_no_P: "CHR ''P'' \<notin> set (lower s)"
  using lower_char_not_P [symmetric] by (auto simp: lower_def)

subsection \<open>Library views of the string functions\<close>

lemma startswith_prefix: "startswith s p \<longleftrightarrow> prefix p s"
proof
  assume "startswith s p"
  then have "p = take (length p) s" by (simp add: startswith_def)
  then show "prefix p s" by (metis take_is_prefix)
next
  assume "prefix p s"
  then obtain r where "s = p @ r" by (auto simp: prefix_def)
  then show "startswith s p" by (simp add: startswith_def)
qed

lemma strip_empty_iff: "strip s = [] \<longleftrightarrow> (\<forall>c\<in>set s. isspace c)"
proof
  assume h: "strip s = []"
  then have a: "\<forall>x\<in>set (dropWhile isspace s). isspace x"
    by (simp add: strip_def dropWhile_eq_Nil_conv)
  have "dropWhile isspace s = []"
  proof (rule ccontr)
    assume n: "dropWhile isspace s \<noteq> []"
    then have "\<not> isspace (hd (dropWhile isspace s))" by (rule hd_dropWhile)
    moreover have "hd (dropWhile isspace s) \<in> set (dropWhile isspace s)" using n by simp
    ultimately show False using a by blast
  qed
  then show "\<forall>c\<in>set s. isspace c" by (simp add: dropWhile_eq_Nil_conv)
next
  assume "\<forall>c\<in>set s. isspace c"
  then have d: "dropWhile isspace s = []" by (simp only: dropWhile_eq_Nil_conv)
  show "strip s = []" unfolding strip_def d by simp
qed

subsection \<open>agent.py\<close>

text \<open>
  C10. In \<open>get_biographies\<close> the comparison of \<open>name.lower()\<close> with \<open>"Pedro Sanchez"\<close>
  is false for every name, since a lower-cased string holds no \<open>P\<close>; so every call
  yields the error dictionary, also the call with the name \<open>Pedro Sanchez\<close> itself. And
  the tool list of \<open>root_agent\<close> names \<open>get_from_different_sources\<close>, which the module
  does not define.
\<close>

theorem get_biographies_never_success:
  "lower name \<noteq> ''Pedro Sanchez'' \<and>
   get_biographies name =
     [(''status'', ''error''),
      (''error_message'',
         '' The is no information available for '' @ [CHR 0x27] @ name @ [CHR 0x27])] \<and>
   undefined_references module_names root_agent_tools = [''get_from_different_sources'']"
proof -
  have a: "lower name \<noteq> ''Pedro Sanchez''"
  proof
    assume "lower name = ''Pedro Sanchez''"
    then have "CHR ''P'' \<in> set (lower name)" by simp
    then show False using lower_no_P by blast
  qed
  have c: "undefined_references module_names root_agent_tools = [''get_from_different_sources'']"
    by (simp add: undefined_references_def module_names_def root_agent_tools_def)
  show ?thesis using a c by (simp add: get_biographies_def)
qed

theorem get_biographies_never_success_witness:
  "get_biographies ''Pedro Sanchez'' =
     [(''status'', ''error''),
      (''error_message'',
         '' The is no information available for '' @ [CHR 0x27] @ ''Pedro Sanchez'' @ [CHR 0x27])]"
  using get_biographies_never_success [of "''Pedro Sanchez''"] by simp

subsection \<open>get\_review\_status\<close>

text \<open>
  C6. Whatever the session and its \<open>review_result\<close> field are, \<open>get_review_status\<close>
  returns \<open>APPROVED\<close> when the field starts with \<open>APPROVED:\<close>, \<open>NEEDS_IMPROVEMENT\<close> when
  it starts with \<open>NEEDS_IMPROVEMENT:\<close>, and \<open>None\<close> in every other case: another prefix,
  the empty string, no field, no session. It has no raising path.
\<close>

theorem get_review_status_classifies:
  "get_review_status self =
     (case session self of
        None \<Rightarrow> None
      | Some st \<Rightarrow>
          (case st ''review_result'' of
             None \<Rightarrow> None
           | Some r \<Rightarrow>
               if prefix ''APPROVED:'' r then Some ''APPROVED''
               else if prefix ''NEEDS_IMPROVEMENT:'' r then Some ''NEEDS_IMPROVEMENT''
               else None)) \<and>
   get_review_status self \<in> {Some ''APPROVED'', Some ''NEEDS_IMPROVEMENT'', None}"
  by (auto simp: get_review_status_def state_get_def startswith_prefix split: option.splits)

theorem get_review_status_classifies_witness:
  "get_review_status (review_flow ''APPROVED: solid summary'') = Some ''APPROVED'' \<and>
   get_review_status (review_flow ''NEEDS_IMPROVEMENT: missing dates|RESEARCH_NEEDED: dates'')
     = Some ''NEEDS_IMPROVEMENT'' \<and>
   get_review_status (review_flow []) = None \<and>
   get_review_status (review_flow ''looks fine to me'') = None \<and>
   get_review_status (demo_flow (Some Map.empty) None) = None \<and>
   get_review_status (demo_flow None None) = None"
proof -
  have a: "get_review_status (review_flow ''APPROVED: solid summary'') = Some ''APPROVED''"
    using get_review_status_classifies [of "review_flow ''APPROVED: solid summary''"]
    by (simp add: review_flow_def demo_flow_def)
  have b: "get_review_status (review_flow ''NEEDS_IMPROVEMENT: missing dates|RESEARCH_NEEDED: dates'')
             = Some ''NEEDS_IMPROVEMENT''"
    using get_review_status_classifies
            [of "review_flow ''NEEDS_IMPROVEMENT: missing dates|RESEARCH_NEEDED: dates''"]
    by (simp add: review_flow_def demo_flow_def)
  have c: "get_review_status (review_flow []) = None"
    using get_review_status_classifies [of "review_flow []"]
    by (simp add: review_flow_def demo_flow_def)
  have d: "get_review_status (review_flow ''looks fine to me'') = None"
    using get_review_status_classifies [of "review_flow ''looks fine to me''"]
    by (simp add: review_flow_def demo_flow_def)
  have e: "get_review_status (demo_flow (Some Map.empty) None) = None"
    using get_review_status_classifies [of "demo_flow (Some Map.empty) None"]
    by (simp add: demo_flow_def)
  have f: "get_review_status (demo_flow None None) = None"
    using get_review_status_classifies [of "demo_flow None None"]
    by (simp add: demo_flow_def)
  show ?thesis using a b c d e f by simp
qed

subsection \<open>research\_person: the name check\<close>

text \<open>
  C2. For a person name that is empty or made of whitespace only, \<open>research_person\<close>
  returns \<open>None\<close> and logs one error record; the runner is not called, no event is
  read, and the flow object, with its session state, is left as it was.
\<close>

theorem research_person_rejects_blank_name:
  assumes "person_name = [] \<or> (\<forall>c\<in>set person_name. isspace c)"
  shows "research_person self person_name =
           \<lparr>ret = Inr None, flow_after = self,
            logs = [(ERROR, ''Person name cannot be empty'')],
            runner_calls = [], observed = []\<rparr>"
proof -
  from assms have "person_name = [] \<or> strip person_name = []"
    by (auto simp: strip_empty_iff)
  then show ?thesis by (simp add: research_person_def)
qed

theorem research_person_rejects_blank_name_witness:
  "isspace (CHR '' '') \<and> isspace (CHR 0x09) \<and>
   research_person (demo_flow (Some Map.empty) (Some (scripted [Emit (text_event True ''bio'')])))
       [CHR '' '', CHR 0x09] =
     \<lparr>ret = Inr None,
      flow_after = demo_flow (Some Map.empty) (Some (scripted [Emit (text_event True ''bio'')])),
      logs = [(ERROR, ''Person name cannot be empty'')],
      runner_calls = [], observed = []\<rparr>"
proof -
  have sp: "isspace (CHR '' '')" "isspace (CHR 0x09)" by (simp_all add: isspace_def)
  then have h: "[CHR '' '', CHR 0x09] = [] \<or> (\<forall>c\<in>set [CHR '' '', CHR 0x09]. isspace c)" by simp
  show ?thesis using sp research_person_rejects_blank_name [OF h] by simp
qed

subsection \<open>The composed workflow\<close>

text \<open>
  C5. The workflow that \<open>_setup_agents\<close> composes is the sequence of the inner sequence
  (research agent, answer agent) and the reviewer agent, so its stages run in the order
  research, answer, review, each once: the reviewer is met exactly once, and the order
  does not depend on any verdict. The refiner agent is built with the others and is
  not a stage of the workflow.
\<close>

theorem workflow_is_research_answer_review:
  "workflow_agent (setup_agents a t) =
     SequentialAgent ''IterativeResearchWorkflow''
       [SequentialAgent ''BaseResearchWorkflow''
          [research_agent (setup_agents a t), answer_agent (setup_agents a t)],
        reviewer_agent (setup_agents a t)] \<and>
   execution_order (workflow_agent (setup_agents a t)) =
     [research_agent (setup_agents a t), answer_agent (setup_agents a t),
      reviewer_agent (setup_agents a t)] \<and>
   map agent_name (execution_order (workflow_agent (setup_agents a t))) =
     [''ResearchAgent'', ''AnswerAgent'', ''ReviewerAgent''] \<and>
   count_list (map agent_name (execution_order (workflow_agent (setup_agents a t))))
     ''ReviewerAgent'' = 1 \<and>
   agent_name (refiner_agent (setup_agents a t)) = ''RefinerAgent'' \<and>
   refiner_agent (setup_agents a t) \<notin> set (execution_order (workflow_agent (setup_agents a t)))"
  by (simp add: setup_agents_def Let_def)

theorem workflow_is_research_answer_review_witness:
  "map agent_name (execution_order (workflow_agent (demo_flow None None))) =
     [''ResearchAgent'', ''AnswerAgent'', ''ReviewerAgent''] \<and>
   count_list (map agent_name (execution_order (workflow_agent (demo_flow None None))))
     ''RefinerAgent'' = 0"
proof -
  from workflow_is_research_answer_review [of demo_args demo_tool]
  have m: "map agent_name (execution_order (workflow_agent (setup_agents demo_args demo_tool))) =
             [''ResearchAgent'', ''AnswerAgent'', ''ReviewerAgent'']"
    by blast
  have d: "workflow_agent (demo_flow None None) = workflow_agent (setup_agents demo_args demo_tool)"
    by (simp add: demo_flow_def)
  show ?thesis unfolding d m by simp
qed

subsection \<open>Tool setup\<close>

text \<open>
  C9, as amended. The search object is built with exactly 10 results, depth
  \<open>advanced\<close>, no generated answer, raw content and no images, and on success the flow
  carries the tool wrapping it, with nothing logged. When one of the two constructors
  raises, the exception leaves the constructor of the flow, so no flow object is built;
  an error record is logged first when the exception is an instance of \<open>Exception\<close>,
  and nothing is logged otherwise.
\<close>

theorem setup_tools_config_and_reraise:
  assumes "cfg = \<lparr>max_results = 10, search_depth = ''advanced'', include_answer = False,
                  include_raw_content = True, include_images = False\<rparr>"
  shows "(tavily_ctor env cfg = None \<and> langchain_ctor env (TavilySearchResults cfg) = None \<longrightarrow>
            init env a = (Inr (setup_agents a (LangchainTool (TavilySearchResults cfg))), []) \<and>
            tool_config (tavily_tool (setup_agents a (LangchainTool (TavilySearchResults cfg)))) = cfg) \<and>
         (\<forall>e. tavily_ctor env cfg = Some e \<or>
                (tavily_ctor env cfg = None \<and> langchain_ctor env (TavilySearchResults cfg) = Some e) \<longrightarrow>
              init env a =
                (Inl e, if is_Exception e
                        then [(ERROR, ''Failed to initialize Tavily search tool: '' @ message e)]
                        else []))"
proof -
  have c: "search_config = cfg" using assms by (simp add: search_config_def)
  show ?thesis
    by (auto simp: init_def setup_tools_def setup_tools_handler_def c setup_agents_def Let_def)
qed

theorem setup_tools_config_and_reraise_witness:
  "init ok_env demo_args = (Inr (demo_flow None None), []) \<and>
   max_results (tool_config (tavily_tool (demo_flow None None))) = 10 \<and>
   init missing_key_env demo_args =
     (Inl (ExceptionInstance ''ValidationError'' ''Did not find tavily_api_key''),
      [(ERROR, ''Failed to initialize Tavily search tool: Did not find tavily_api_key'')])"
proof -
  have h: "search_config = \<lparr>max_results = 10, search_depth = ''advanced'', include_answer = False,
                  include_raw_content = True, include_images = False\<rparr>"
    by (simp add: search_config_def)
  have d: "demo_flow None None = setup_agents demo_args demo_tool"
    by (simp add: demo_flow_def setup_agents_def Let_def)
  show ?thesis
    using setup_tools_config_and_reraise [OF h, of ok_env demo_args]
          setup_tools_config_and_reraise [OF h, of missing_key_env demo_args]
    by (simp add: ok_env_def missing_key_env_def d demo_tool_def search_config_def)
qed

text \<open>
  The claim as it was written has every exception of tool setup logged. A
  \<open>KeyboardInterrupt\<close> raised while the search object is built leaves the constructor
  with no log record.
\<close>

theorem setup_tools_logs_every_exception_counterexample:
  "init interrupted_env demo_args = (Inl (BaseExceptionOnly ''KeyboardInterrupt'' []), [])"
  by (simp add: init_def setup_tools_def setup_tools_handler_def interrupted_env_def)

subsection \<open>get\_review\_feedback\<close>

text \<open>The two examples of the specification.\<close>

lemma get_review_feedback_examples:
  "get_review_feedback
      (review_flow ''NEEDS_IMPROVEMENT: missing dates|RESEARCH_NEEDED: dates'')
     = Some ''missing dates''"
  "get_review_feedback (review_flow ''APPROVED: solid summary'') = Some ''solid summary''"
  by (simp_all add: get_review_feedback_def state_get_def review_flow_def
        demo_flow_def startswith_def strip_def isspace_def)

text \<open>
  C7. On a review result with the verdict prefix \<open>NEEDS_IMPROVEMENT:\<close> whose feedback
  text mentions \<open>APPROVED:\<close>, \<open>get_review_status\<close> reports \<open>NEEDS_IMPROVEMENT\<close>, and
  \<open>get_review_feedback\<close> neither strips the verdict prefix nor cuts at the first bar:
  it returns the whole text with \<open>APPROVED:\<close> taken out.
\<close>

theorem get_review_feedback_ignores_verdict_prefix:
  "get_review_status
      (review_flow ''NEEDS_IMPROVEMENT: not APPROVED: yet|RESEARCH_NEEDED: dates'')
     = Some ''NEEDS_IMPROVEMENT'' \<and>
   get_review_feedback
      (review_flow ''NEEDS_IMPROVEMENT: not APPROVED: yet|RESEARCH_NEEDED: dates'')
     = Some ''NEEDS_IMPROVEMENT: not  yet|RESEARCH_NEEDED: dates''"
  by (simp add: get_review_status_def get_review_feedback_def state_get_def review_flow_def
        demo_flow_def startswith_def strip_def isspace_def)

subsection \<open>Where the two accessors part\<close>

lemma contains_sublist: "contains s sub \<longleftrightarrow> sublist sub s"
  by (induction s) (auto simp: sublist_Cons_right startswith_prefix)

lemma replace_skip:
  assumes "old \<noteq> []" "c \<noteq> hd old"
  shows "replace (c # cs) old new = c # replace cs old new"
proof -
  obtain a rest where o: "old = a # rest" using assms(1) by (cases old) auto
  with assms(2) have "\<not> startswith (c # cs) old" by (auto simp: startswith_def)
  then show ?thesis using assms(1) by simp
qed

lemma replace_keeps_prefix:
  assumes "old \<noteq> []" "hd old \<notin> set p"
  shows "replace (p @ t) old new = p @ replace t old new"
  using assms(2)
proof (induction p)
  case Nil
  then show ?case by simp
next
  case (Cons c p)
  then have "c \<noteq> hd old" by auto
  then have "replace (c # (p @ t)) old new = c # replace (p @ t) old new"
    using assms(1) by (rule replace_skip [rotated])
  with Cons show ?case by simp
qed

lemma strip_keeps_prefix:
  assumes "p \<noteq> []" "\<not> isspace (hd p)" "\<not> isspace (last p)"
  shows "prefix p (strip (p @ t))"
proof -
  have a: "dropWhile isspace (p @ t) = p @ t"
    using assms(1,2) by (cases p) auto
  have "p = butlast p @ [last p]" using assms(1) by simp
  then have "rev p = last p # rev (butlast p)" by (metis rev.simps(2) rev_rev_ident rev_singleton_conv rev_append append_Cons append_Nil)
  then have rp: "rev p = last p # rev (butlast p)" .
  have b: "dropWhile isspace (rev p) = rev p"
    unfolding rp using assms(3) by simp
  have "\<exists>u. dropWhile isspace (rev t @ rev p) = u @ rev p"
    by (auto simp: dropWhile_append b)
  then obtain u where "dropWhile isspace (rev t @ rev p) = u @ rev p" by blast
  then have "strip (p @ t) = p @ rev u" by (simp add: strip_def a)
  then show ?thesis by simp
qed

lemma filter_replace_empty:
  "\<forall>c\<in>set old. \<not> P c \<Longrightarrow> filter P (replace s old []) = filter P s"
proof (induction s old "[] :: string" rule: replace.induct)
  case (1 old)
  then show ?case by simp
next
  case (2 c cs old)
  show ?case
  proof (cases "old = []")
    case True
    with 2 show ?thesis by simp
  next
    case False
    show ?thesis
    proof (cases "startswith (c # cs) old")
      case True
      then have s: "c # cs = old @ drop (length old) (c # cs)"
        by (metis append_take_drop_id startswith_def)
      have "filter P (c # cs) = filter P old @ filter P (drop (length old) (c # cs))"
        by (subst s) simp
      also have "filter P old = []" using "2.prems" by (auto simp: filter_empty_conv)
      finally show ?thesis using 2 False True by simp
    next
      case F2: False
      with 2 False show ?thesis by simp
    qed
  qed
qed

lemma filter_dropWhile_disjoint:
  assumes "\<forall>c. P c \<longrightarrow> \<not> Q c"
  shows "filter P (dropWhile Q xs) = filter P xs"
  using assms by (induction xs) auto

lemma filter_strip:
  assumes "\<forall>c. P c \<longrightarrow> \<not> isspace c"
  shows "filter P (strip s) = filter P s"
proof -
  have "filter P (strip s) = rev (filter P (dropWhile isspace (rev (dropWhile isspace s))))"
    by (simp add: strip_def rev_filter)
  also have "\<dots> = rev (filter P (rev (dropWhile isspace s)))"
    using assms by (simp add: filter_dropWhile_disjoint)
  also have "\<dots> = filter P (dropWhile isspace s)" by (simp add: rev_filter)
  also have "\<dots> = filter P s" using assms by (simp add: filter_dropWhile_disjoint)
  finally show ?thesis .
qed

text \<open>
  C8. \<open>get_review_feedback\<close> chooses its branch by whether \<open>APPROVED:\<close> occurs anywhere
  in the review result, \<open>get_review_status\<close> by the prefix. So for a review result that
  starts with \<open>NEEDS_IMPROVEMENT:\<close> and holds \<open>APPROVED:\<close> somewhere, the status is
  \<open>NEEDS_IMPROVEMENT\<close>, while the feedback is the whole text with the occurrences of
  \<open>APPROVED:\<close> replaced by nothing and the whitespace at both ends stripped: it still
  starts with \<open>NEEDS_IMPROVEMENT:\<close>, and it keeps every bar of the text, so nothing is
  cut at a bar.
\<close>

theorem feedback_branch_disagrees_with_status:
  assumes "session self = Some st" and "st ''review_result'' = Some r"
    and "prefix ''NEEDS_IMPROVEMENT:'' r" and "sublist ''APPROVED:'' r"
  shows "get_review_status self = Some ''NEEDS_IMPROVEMENT'' \<and>
         get_review_feedback self = Some (strip (replace r ''APPROVED:'' [])) \<and>
         prefix ''NEEDS_IMPROVEMENT:'' (strip (replace r ''APPROVED:'' [])) \<and>
         filter (\<lambda>c. c = CHR ''|'') (strip (replace r ''APPROVED:'' []))
           = filter (\<lambda>c. c = CHR ''|'') r"
proof -
  from assms(3) obtain t where r: "r = ''NEEDS_IMPROVEMENT:'' @ t" by (auto simp: prefix_def)
  have ne: "r \<noteq> []" using r by simp
  have na: "\<not> prefix ''APPROVED:'' r" using r by simp
  have status: "get_review_status self = Some ''NEEDS_IMPROVEMENT''"
    using assms(1,2,3) ne na
    by (simp add: get_review_status_def state_get_def startswith_prefix)
  have fb: "get_review_feedback self = Some (strip (replace r ''APPROVED:'' []))"
    using assms(1,2,4) ne
    by (simp add: get_review_feedback_def state_get_def contains_sublist)
  have "replace (''NEEDS_IMPROVEMENT:'' @ t) ''APPROVED:'' [] =
          ''NEEDS_IMPROVEMENT:'' @ replace t ''APPROVED:'' []"
    by (rule replace_keeps_prefix) simp_all
  then have rp: "replace r ''APPROVED:'' [] = ''NEEDS_IMPROVEMENT:'' @ replace t ''APPROVED:'' []"
    using r by simp
  have pre: "prefix ''NEEDS_IMPROVEMENT:'' (strip (replace r ''APPROVED:'' []))"
    unfolding rp by (rule strip_keeps_prefix) (simp_all add: isspace_def)
  have bar: "filter (\<lambda>c. c = CHR ''|'') (strip (replace r ''APPROVED:'' []))
           = filter (\<lambda>c. c = CHR ''|'') r"
  proof -
    have "filter (\<lambda>c. c = CHR ''|'') (strip (replace r ''APPROVED:'' []))
            = filter (\<lambda>c. c = CHR ''|'') (replace r ''APPROVED:'' [])"
      by (rule filter_strip) (simp add: isspace_def)
    also have "\<dots> = filter (\<lambda>c. c = CHR ''|'') r"
      by (rule filter_replace_empty) simp
    finally show ?thesis .
  qed
  show ?thesis using status fb pre bar by simp
qed

theorem feedback_branch_disagrees_with_status_witness:
  "get_review_status (review_flow ''NEEDS_IMPROVEMENT: dates|APPROVED: rest'')
     = Some ''NEEDS_IMPROVEMENT'' \<and>
   get_review_feedback (review_flow ''NEEDS_IMPROVEMENT: dates|APPROVED: rest'')
     = Some ''NEEDS_IMPROVEMENT: dates| rest''"
proof -
  have s: "session (review_flow ''NEEDS_IMPROVEMENT: dates|APPROVED: rest'')
             = Some [''review_result'' \<mapsto> ''NEEDS_IMPROVEMENT: dates|APPROVED: rest'']"
    by (simp add: review_flow_def demo_flow_def)
  have g: "[''review_result'' \<mapsto> ''NEEDS_IMPROVEMENT: dates|APPROVED: rest''] ''review_result''
             = Some ''NEEDS_IMPROVEMENT: dates|APPROVED: rest''"
    by simp
  have p: "prefix ''NEEDS_IMPROVEMENT:'' ''NEEDS_IMPROVEMENT: dates|APPROVED: rest''" by simp
  have c: "sublist ''APPROVED:'' ''NEEDS_IMPROVEMENT: dates|APPROVED: rest''"
    by (simp add: sublist_Cons_right)
  have v: "strip (replace ''NEEDS_IMPROVEMENT: dates|APPROVED: rest'' ''APPROVED:'' [])
             = ''NEEDS_IMPROVEMENT: dates| rest''"
    by (simp add: startswith_def strip_def isspace_def)
  note t = feedback_branch_disagrees_with_status [OF s g p c]
  from t have a: "get_review_status (review_flow ''NEEDS_IMPROVEMENT: dates|APPROVED: rest'')
                    = Some ''NEEDS_IMPROVEMENT''"
    by (rule conjunct1)
  from t have "get_review_feedback (review_flow ''NEEDS_IMPROVEMENT: dates|APPROVED: rest'')
                 = Some (strip (replace ''NEEDS_IMPROVEMENT: dates|APPROVED: rest'' ''APPROVED:'' []))"
    by (rule conjunct1 [OF conjunct2])
  then have b: "get_review_feedback (review_flow ''NEEDS_IMPROVEMENT: dates|APPROVED: rest'')
                 = Some ''NEEDS_IMPROVEMENT: dates| rest''"
    by (simp only: v)
  from a b show ?thesis by (rule conjI)
qed

subsection \<open>research\_person: the run\<close>

lemma consume_Emit:
  "consume (Emit ev # acts) st evs =
     (if stops ev then
        \<lparr>raised = None, broke = True, final_response = first_text ev,
         state_after = st, seen = evs @ [ev]\<rparr>
      else consume acts st (evs @ [ev]))"
  by (simp add: stops_def)

lemma seen_consume:
  "seen (consume acts st evs) =
     evs @ upto_first stops (events_of (takeWhile (\<lambda>a. \<not> is_Raise a) acts))"
proof (induction acts arbitrary: st evs)
  case Nil
  then show ?case by simp
next
  case (Cons a acts)
  show ?case
    by (cases a) (simp_all add: consume_Emit Cons.IH del: consume.simps(4))
qed

lemma find_upto_first: "find P (upto_first P xs) = find P xs"
  by (induction xs) simp_all

lemma final_response_consume:
  "final_response (consume acts st evs) =
     (case find stops (events_of (takeWhile (\<lambda>a. \<not> is_Raise a) acts)) of
        None \<Rightarrow> None
      | Some ev \<Rightarrow> first_text ev)"
proof (induction acts arbitrary: st evs)
  case Nil
  then show ?case by simp
next
  case (Cons a acts)
  show ?case
    by (cases a) (simp_all add: consume_Emit Cons.IH del: consume.simps(4))
qed

lemma raised_consume_in: "raised (consume acts st evs) = Some e \<Longrightarrow> Raise e \<in> set acts"
proof (induction acts arbitrary: st evs)
  case Nil
  then show ?case by simp
next
  case (Cons a acts)
  then show ?case
    by (cases a) (auto simp: consume_Emit simp del: consume.simps(4) split: if_splits)
qed

lemma raised_consume_first:
  assumes "\<forall>a\<in>set pre. \<not> is_Raise a" and "\<forall>ev\<in>set (events_of pre). \<not> stops ev"
  shows "raised (consume (pre @ Raise e # post) st evs) = Some e"
  using assms
proof (induction pre arbitrary: st evs)
  case Nil
  then show ?case by simp
next
  case (Cons a pre)
  then show ?case
    by (cases a) (simp_all add: consume_Emit del: consume.simps(4))
qed

lemma research_person_run:
  assumes "person_name \<noteq> []" and "strip person_name \<noteq> []"
    and "session self = Some st" and "runner self = Some run"
    and "out = consume (run (seeded st person_name) (run_request self person_name))
                 (seeded st person_name) []"
  shows "research_person self person_name =
           (case raised out of
              Some e \<Rightarrow>
                \<lparr>ret = fst (research_handler e (start_log person_name)),
                 flow_after = self\<lparr>session := Some (state_after out)\<rparr>,
                 logs = snd (research_handler e (start_log person_name)),
                 runner_calls = [run_request self person_name], observed = seen out\<rparr>
            | None \<Rightarrow>
                \<lparr>ret = fst (resolve (state_after out) (final_response out)
                            (start_log person_name @
                               (if broke out
                                then [(INFO, ''Iterative research workflow completed successfully'')]
                                else []))),
                 flow_after = self\<lparr>session := Some (state_after out)\<rparr>,
                 logs = snd (resolve (state_after out) (final_response out)
                            (start_log person_name @
                               (if broke out
                                then [(INFO, ''Iterative research workflow completed successfully'')]
                                else []))),
                 runner_calls = [run_request self person_name], observed = seen out\<rparr>)"
  using assms
  by (simp add: research_person_def Let_def split: option.splits prod.splits)

lemma resolve_ret:
  "fst (resolve st fr lg) =
     Inr (if truthy (st ''answer_summary'') then st ''answer_summary''
          else if truthy fr then fr else None)"
  by (simp add: resolve_def Let_def)

lemma resolve_warning:
  assumes "\<forall>m. (WARNING, m) \<notin> set lg"
  shows "(WARNING, ''No final summary available after workflow completion'')
           \<in> set (snd (resolve st fr lg)) \<longleftrightarrow> fst (resolve st fr lg) = Inr None"
  using assms by (cases "st ''answer_summary''"; cases fr) (auto simp: resolve_def Let_def)

lemma keir:
  "''Keir Starmer'' \<noteq> []"
  "strip ''Keir Starmer'' = ''Keir Starmer''"
  "\<not> (\<forall>c\<in>set ''Keir Starmer''. isspace c)"
  by (simp_all add: strip_def isspace_def)

lemma demo_run_fields:
  "session (demo_run acts) = Some Map.empty"
  "runner (demo_run acts) = Some (scripted acts)"
  by (simp_all add: demo_run_def demo_flow_def)

lemma research_person_demo_run:
  assumes "out = consume acts [''person_name'' \<mapsto> ''Keir Starmer''] []"
  shows "ret (research_person (demo_run acts) ''Keir Starmer'') =
           (case raised out of
              Some e \<Rightarrow> fst (research_handler e (start_log ''Keir Starmer''))
            | None \<Rightarrow>
                fst (resolve (state_after out) (final_response out)
                       (start_log ''Keir Starmer'' @
                          (if broke out
                           then [(INFO, ''Iterative research workflow completed successfully'')]
                           else []))))"
    and "logs (research_person (demo_run acts) ''Keir Starmer'') =
           (case raised out of
              Some e \<Rightarrow> snd (research_handler e (start_log ''Keir Starmer''))
            | None \<Rightarrow>
                snd (resolve (state_after out) (final_response out)
                       (start_log ''Keir Starmer'' @
                          (if broke out
                           then [(INFO, ''Iterative research workflow completed successfully'')]
                           else []))))"
    and "session (flow_after (research_person (demo_run acts) ''Keir Starmer'')) =
           Some (state_after out)"
    and "observed (research_person (demo_run acts) ''Keir Starmer'') = seen out"
proof -
  have k: "strip ''Keir Starmer'' \<noteq> []" by (simp add: keir(2))
  have o: "out = consume (scripted acts (seeded Map.empty ''Keir Starmer'')
                    (run_request (demo_run acts) ''Keir Starmer''))
                  (seeded Map.empty ''Keir Starmer'') []"
    using assms by (simp add: scripted_def seeded_def keir(2))
  note r = research_person_run [OF keir(1) k demo_run_fields o]
  show "ret (research_person (demo_run acts) ''Keir Starmer'') =
           (case raised out of
              Some e \<Rightarrow> fst (research_handler e (start_log ''Keir Starmer''))
            | None \<Rightarrow>
                fst (resolve (state_after out) (final_response out)
                       (start_log ''Keir Starmer'' @
                          (if broke out
                           then [(INFO, ''Iterative research workflow completed successfully'')]
                           else []))))"
    unfolding r by (simp split: option.splits)
  show "logs (research_person (demo_run acts) ''Keir Starmer'') =
           (case raised out of
              Some e \<Rightarrow> snd (research_handler e (start_log ''Keir Starmer''))
            | None \<Rightarrow>
                snd (resolve (state_after out) (final_response out)
                       (start_log ''Keir Starmer'' @
                          (if broke out
                           then [(INFO, ''Iterative research workflow completed successfully'')]
                           else []))))"
    unfolding r by (simp split: option.splits)
  show "session (flow_after (research_person (demo_run acts) ''Keir Starmer'')) =
           Some (state_after out)"
    unfolding r by (simp split: option.splits)
  show "observed (research_person (demo_run acts) ''Keir Starmer'') = seen out"
    unfolding r by (simp split: option.splits)
qed

lemma research_person_never_propagates_Exception:
  "ret (research_person self person_name) = Inl e \<Longrightarrow> \<not> is_Exception e"
  by (auto simp: research_person_def research_handler_def resolve_def Let_def
           none_has_no_attribute_def split: option.splits if_splits)

lemma research_person_raise:
  assumes "person_name \<noteq> []" and "\<not> (\<forall>c\<in>set person_name. isspace c)"
    and "session self = Some st" and "runner self = Some run"
    and "run (seeded st person_name) (run_request self person_name) = pre @ Raise e # post"
    and "\<forall>a\<in>set pre. \<not> is_Raise a" and "\<forall>ev\<in>set (events_of pre). \<not> stops ev"
  shows "ret (research_person self person_name) = fst (research_handler e (start_log person_name))"
    and "logs (research_person self person_name) = snd (research_handler e (start_log person_name))"
proof -
  have s: "strip person_name \<noteq> []" using assms(2) by (simp add: strip_empty_iff)
  have r: "raised (consume (run (seeded st person_name) (run_request self person_name))
                     (seeded st person_name) []) = Some e"
    unfolding assms(5) using assms(6,7) by (rule raised_consume_first)
  note p = research_person_run [OF assms(1) s assms(3,4) refl]
  show "ret (research_person self person_name) = fst (research_handler e (start_log person_name))"
    unfolding p by (simp add: r)
  show "logs (research_person self person_name) = snd (research_handler e (start_log person_name))"
    unfolding p by (simp add: r)
qed

text \<open>
  C3, as amended. With a well-formed name and the session and the runner in place,
  the events that \<open>research_person\<close> receives are the events of the run up to and
  including the first one that is flagged as a final response and has content with at
  least one part; where the generator raises before such an event, they are the events
  before the raise. No later event is received. An event flagged final with no content,
  or with no parts, does not end the loop.
\<close>

theorem research_person_observes_upto_first_stop:
  assumes "person_name \<noteq> []" and "\<not> (\<forall>c\<in>set person_name. isspace c)"
    and "session self = Some st" and "runner self = Some run"
  shows "observed (research_person self person_name) =
           upto_first stops
             (events_of (takeWhile (\<lambda>a. \<not> is_Raise a)
                (run (seeded st person_name) (run_request self person_name))))"
proof -
  have s: "strip person_name \<noteq> []" using assms(2) by (simp add: strip_empty_iff)
  show ?thesis
    using research_person_run [OF assms(1) s assms(3,4) refl]
    by (simp add: seen_consume split: option.splits)
qed

theorem research_person_observes_upto_first_stop_witness:
  "observed (research_person
               (demo_run [Emit (text_event False ''A''), Emit bare_final_event,
                          Emit (text_event True ''final bio text''),
                          Emit (text_event False ''D''), Emit (text_event True ''E'')])
               ''Keir Starmer'')
     = [text_event False ''A'', bare_final_event, text_event True ''final bio text'']"
  using research_person_observes_upto_first_stop [OF keir(1) keir(3) demo_run_fields]
  by (simp add: scripted_def stops_def text_event_def bare_final_event_def)

text \<open>
  The claim as it was written lets the loop end at the first event flagged final,
  whatever its content. Here the first event is flagged final and has no content, and
  the event after it is received as well.
\<close>

theorem research_person_stops_at_first_final_counterexample:
  "is_final_response bare_final_event \<and>
   observed (research_person
       (demo_run [Emit bare_final_event, Emit (text_event False ''late'')]) ''Keir Starmer'')
     = [bare_final_event, text_event False ''late'']"
  by (simp add: research_person_demo_run [OF refl] bare_final_event_def text_event_def)

text \<open>
  C1, as amended. With a well-formed name, the session and the runner in place and a
  run that raises nothing, the result is resolved in this order: the \<open>answer_summary\<close>
  field of the session state after the run when it is present and not empty; otherwise
  the text recorded from the final response (the first part of the first received event
  that is flagged final and has parts) when it is there and not empty; otherwise
  \<open>None\<close>, and then, and only then, the warning is logged.
\<close>

theorem research_person_resolution:
  assumes "person_name \<noteq> []" and "\<not> (\<forall>c\<in>set person_name. isspace c)"
    and "session self = Some st" and "runner self = Some run"
    and "\<forall>e. Raise e \<notin> set (run (seeded st person_name) (run_request self person_name))"
    and "R = research_person self person_name"
    and "fr = (case find stops (observed R) of None \<Rightarrow> None | Some ev \<Rightarrow> first_text ev)"
  shows "\<exists>st'. session (flow_after R) = Some st' \<and>
           ret R = Inr (if truthy (st' ''answer_summary'') then st' ''answer_summary''
                        else if truthy fr then fr else None) \<and>
           ((WARNING, ''No final summary available after workflow completion'') \<in> set (logs R)
              \<longleftrightarrow> ret R = Inr None)"
proof -
  define out where
    "out = consume (run (seeded st person_name) (run_request self person_name))
             (seeded st person_name) []"
  have s: "strip person_name \<noteq> []" using assms(2) by (simp add: strip_empty_iff)
  have nr: "raised out = None"
  proof (cases "raised out")
    case None
    then show ?thesis .
  next
    case (Some e)
    then have "Raise e \<in> set (run (seeded st person_name) (run_request self person_name))"
      unfolding out_def by (rule raised_consume_in)
    with assms(5) show ?thesis by blast
  qed
  define lg where
    "lg = start_log person_name @
            (if broke out
             then [(INFO, ''Iterative research workflow completed successfully'')] else [])"
  have R: "R = \<lparr>ret = fst (resolve (state_after out) (final_response out) lg),
                flow_after = self\<lparr>session := Some (state_after out)\<rparr>,
                logs = snd (resolve (state_after out) (final_response out) lg),
                runner_calls = [run_request self person_name], observed = seen out\<rparr>"
    unfolding assms(6) lg_def
    using research_person_run [OF assms(1) s assms(3,4) out_def] nr by simp
  have fr: "fr = final_response out"
    unfolding assms(7) R out_def
    by (simp add: seen_consume final_response_consume find_upto_first)
  have nw: "\<forall>m. (WARNING, m) \<notin> set lg" by (simp add: lg_def start_log_def)
  show ?thesis
    unfolding fr
    by (rule exI [of _ "state_after out"]) (simp add: R resolve_ret resolve_warning [OF nw])
qed

text \<open>
  The scenarios of the specification: two events that are not final and a final one
  with the text \<open>final bio text\<close>, first with no summary in the state, then with one;
  and a stream that ends with no final event and no summary.
\<close>

theorem research_person_resolution_witness:
  "ret (research_person
          (demo_run [Emit (text_event False ''A''), Emit (text_event False ''B''),
                     Emit (text_event True ''final bio text'')]) ''Keir Starmer'')
     = Inr (Some ''final bio text'') \<and>
   ret (research_person
          (demo_run [Emit (text_event False ''A''), Write ''answer_summary'' ''Born in 1962.'',
                     Emit (text_event False ''B''),
                     Emit (text_event True ''final bio text'')]) ''Keir Starmer'')
     = Inr (Some ''Born in 1962.'') \<and>
   ret (research_person
          (demo_run [Emit (text_event False ''A''), Emit (text_event False ''B'')])
          ''Keir Starmer'')
     = Inr None \<and>
   (WARNING, ''No final summary available after workflow completion'')
     \<in> set (logs (research_person
          (demo_run [Emit (text_event False ''A''), Emit (text_event False ''B'')])
          ''Keir Starmer''))"
proof -
  let ?a1 = "[Emit (text_event False ''A''), Emit (text_event False ''B''),
              Emit (text_event True ''final bio text'')]"
  let ?a2 = "[Emit (text_event False ''A''), Write ''answer_summary'' ''Born in 1962.'',
              Emit (text_event False ''B''), Emit (text_event True ''final bio text'')]"
  let ?a3 = "[Emit (text_event False ''A''), Emit (text_event False ''B'')]"
  have n1: "\<forall>e. Raise e \<notin> set (scripted ?a1 (seeded Map.empty ''Keir Starmer'')
                                   (run_request (demo_run ?a1) ''Keir Starmer''))"
    by (simp add: scripted_def)
  have n2: "\<forall>e. Raise e \<notin> set (scripted ?a2 (seeded Map.empty ''Keir Starmer'')
                                   (run_request (demo_run ?a2) ''Keir Starmer''))"
    by (simp add: scripted_def)
  have n3: "\<forall>e. Raise e \<notin> set (scripted ?a3 (seeded Map.empty ''Keir Starmer'')
                                   (run_request (demo_run ?a3) ''Keir Starmer''))"
    by (simp add: scripted_def)
  have r1: "ret (research_person (demo_run ?a1) ''Keir Starmer'') = Inr (Some ''final bio text'')"
    using research_person_resolution [OF keir(1) keir(3) demo_run_fields n1 refl refl]
    by (auto simp: research_person_demo_run(3,4) [OF refl] text_event_def stops_def)
  have r2: "ret (research_person (demo_run ?a2) ''Keir Starmer'') = Inr (Some ''Born in 1962.'')"
    using research_person_resolution [OF keir(1) keir(3) demo_run_fields n2 refl refl]
    by (auto simp: research_person_demo_run(3,4) [OF refl] text_event_def stops_def)
  have r3: "ret (research_person (demo_run ?a3) ''Keir Starmer'') = Inr None \<and>
            (WARNING, ''No final summary available after workflow completion'')
              \<in> set (logs (research_person (demo_run ?a3) ''Keir Starmer''))"
    using research_person_resolution [OF keir(1) keir(3) demo_run_fields n3 refl refl]
    by (auto simp: research_person_demo_run(3,4) [OF refl] text_event_def stops_def)
  show ?thesis using r1 r2 r3 by blast
qed

text \<open>
  The claim as it was written returns the summary whenever it is present, and the final
  text whenever one was seen. A summary that is present and empty is passed over for the
  final text, and an empty final text gives \<open>None\<close>.
\<close>

theorem research_person_resolution_counterexample:
  "state_get (flow_after (research_person
       (demo_run [Write ''answer_summary'' [], Emit (text_event True ''final bio text'')])
       ''Keir Starmer'')) ''answer_summary'' = Some [] \<and>
   ret (research_person
       (demo_run [Write ''answer_summary'' [], Emit (text_event True ''final bio text'')])
       ''Keir Starmer'') = Inr (Some ''final bio text'') \<and>
   observed (research_person (demo_run [Emit (text_event True [])]) ''Keir Starmer'')
     = [text_event True []] \<and>
   first_text (text_event True []) = Some [] \<and>
   ret (research_person (demo_run [Emit (text_event True [])]) ''Keir Starmer'') = Inr None"
  by (simp add: research_person_demo_run [OF refl] state_get_def text_event_def resolve_def)

text \<open>
  C4, as amended. \<open>research_person\<close> never lets an instance of \<open>Exception\<close> reach its
  caller. When the generator raises before the loop has left, an instance of
  \<open>Exception\<close> is logged as an error and \<open>None\<close> is returned, while any other exception
  (an instance of \<open>BaseException\<close> only) reaches the caller and nothing more is logged.
  A missing session or a missing runner raises \<open>AttributeError\<close> inside the \<open>try\<close>, with
  the same outcome: an error record and \<open>None\<close>.
\<close>

theorem research_person_absorbs_Exception_instances:
  "(\<forall>e. ret (research_person self person_name) = Inl e \<longrightarrow> \<not> is_Exception e) \<and>
   (\<forall>st run pre e post.
      person_name \<noteq> [] \<and> \<not> (\<forall>c\<in>set person_name. isspace c) \<and>
      session self = Some st \<and> runner self = Some run \<and>
      run (seeded st person_name) (run_request self person_name) = pre @ Raise e # post \<and>
      (\<forall>a\<in>set pre. \<not> is_Raise a) \<and> (\<forall>ev\<in>set (events_of pre). \<not> stops ev) \<longrightarrow>
      (if is_Exception e
       then ret (research_person self person_name) = Inr None \<and>
            logs (research_person self person_name) =
              start_log person_name @
                [(ERROR, ''Error during iterative research workflow: '' @ message e)]
       else ret (research_person self person_name) = Inl e \<and>
            logs (research_person self person_name) = start_log person_name)) \<and>
   (person_name \<noteq> [] \<and> \<not> (\<forall>c\<in>set person_name. isspace c) \<and> session self = None \<longrightarrow>
      ret (research_person self person_name) = Inr None \<and>
      logs (research_person self person_name) =
        [(ERROR, ''Error during iterative research workflow: ''
                   @ message (none_has_no_attribute ''state''))]) \<and>
   (person_name \<noteq> [] \<and> \<not> (\<forall>c\<in>set person_name. isspace c) \<and>
    session self \<noteq> None \<and> runner self = None \<longrightarrow>
      ret (research_person self person_name) = Inr None \<and>
      logs (research_person self person_name) =
        start_log person_name @
          [(ERROR, ''Error during iterative research workflow: ''
                     @ message (none_has_no_attribute ''run_async''))])"
proof (intro conjI allI impI)
  fix e assume "ret (research_person self person_name) = Inl e"
  then show "\<not> is_Exception e" by (rule research_person_never_propagates_Exception)
next
  fix st run pre e post
  assume h: "person_name \<noteq> [] \<and> \<not> (\<forall>c\<in>set person_name. isspace c) \<and>
      session self = Some st \<and> runner self = Some run \<and>
      run (seeded st person_name) (run_request self person_name) = pre @ Raise e # post \<and>
      (\<forall>a\<in>set pre. \<not> is_Raise a) \<and> (\<forall>ev\<in>set (events_of pre). \<not> stops ev)"
  have a: "ret (research_person self person_name) = fst (research_handler e (start_log person_name))"
    using h by (intro research_person_raise(1) [where pre = pre and post = post]) blast+
  have b: "logs (research_person self person_name) = snd (research_handler e (start_log person_name))"
    using h by (intro research_person_raise(2) [where pre = pre and post = post]) blast+
  show "if is_Exception e
       then ret (research_person self person_name) = Inr None \<and>
            logs (research_person self person_name) =
              start_log person_name @
                [(ERROR, ''Error during iterative research workflow: '' @ message e)]
       else ret (research_person self person_name) = Inl e \<and>
            logs (research_person self person_name) = start_log person_name"
    unfolding a b by (simp add: research_handler_def)
next
  assume h: "person_name \<noteq> [] \<and> \<not> (\<forall>c\<in>set person_name. isspace c) \<and> session self = None"
  then have s: "strip person_name \<noteq> []" by (simp add: strip_empty_iff)
  show "ret (research_person self person_name) = Inr None"
    using h s by (simp add: research_person_def research_handler_def none_has_no_attribute_def)
  show "logs (research_person self person_name) =
        [(ERROR, ''Error during iterative research workflow: ''
                   @ message (none_has_no_attribute ''state''))]"
    using h s by (simp add: research_person_def research_handler_def none_has_no_attribute_def)
next
  assume h: "person_name \<noteq> [] \<and> \<not> (\<forall>c\<in>set person_name. isspace c) \<and>
    session self \<noteq> None \<and> runner self = None"
  then have s: "strip person_name \<noteq> []" by (simp add: strip_empty_iff)
  from h obtain st where st: "session self = Some st" by auto
  show "ret (research_person self person_name) = Inr None"
    using h s st by (simp add: research_person_def research_handler_def none_has_no_attribute_def)
  show "logs (research_person self person_name) =
        start_log person_name @
          [(ERROR, ''Error during iterative research workflow: ''
                     @ message (none_has_no_attribute ''run_async''))]"
    using h s st by (simp add: research_person_def research_handler_def none_has_no_attribute_def)
qed

theorem research_person_absorbs_Exception_instances_witness:
  "ret (research_person
          (demo_run [Emit (text_event False ''A''),
                     Raise (ExceptionInstance ''RuntimeError'' ''model unavailable'')])
          ''Keir Starmer'') = Inr None \<and>
   logs (research_person
          (demo_run [Emit (text_event False ''A''),
                     Raise (ExceptionInstance ''RuntimeError'' ''model unavailable'')])
          ''Keir Starmer'')
     = [(INFO, ''Starting iterative research workflow for: Keir Starmer''),
        (ERROR, ''Error during iterative research workflow: model unavailable'')] \<and>
   ret (research_person (demo_flow None None) ''Keir Starmer'') = Inr None"
proof -
  let ?acts = "[Emit (text_event False ''A''),
                Raise (ExceptionInstance ''RuntimeError'' ''model unavailable'')]"
  note t = research_person_absorbs_Exception_instances [of "demo_run ?acts" "''Keir Starmer''"]
  note c = t [THEN conjunct2, THEN conjunct1, rule_format]
  have "if is_Exception (ExceptionInstance ''RuntimeError'' ''model unavailable'')
        then ret (research_person (demo_run ?acts) ''Keir Starmer'') = Inr None \<and>
             logs (research_person (demo_run ?acts) ''Keir Starmer'') =
               start_log ''Keir Starmer'' @
                 [(ERROR, ''Error during iterative research workflow: ''
                            @ message (ExceptionInstance ''RuntimeError'' ''model unavailable''))]
        else ret (research_person (demo_run ?acts) ''Keir Starmer'')
               = Inl (ExceptionInstance ''RuntimeError'' ''model unavailable'') \<and>
             logs (research_person (demo_run ?acts) ''Keir Starmer'') = start_log ''Keir Starmer''"
    by (rule c [where pre = "[Emit (text_event False ''A'')]" and post = "[]"
                  and st = Map.empty and run = "scripted ?acts"])
       (simp add: keir(1) demo_run_fields scripted_def stops_def text_event_def isspace_def)
  then have a: "ret (research_person (demo_run ?acts) ''Keir Starmer'') = Inr None \<and>
     logs (research_person (demo_run ?acts) ''Keir Starmer'')
       = [(INFO, ''Starting iterative research workflow for: Keir Starmer''),
          (ERROR, ''Error during iterative research workflow: model unavailable'')]"
    by (simp add: start_log_def)
  note u = research_person_absorbs_Exception_instances [of "demo_flow None None" "''Keir Starmer''"]
  have b: "ret (research_person (demo_flow None None) ''Keir Starmer'') = Inr None"
    using u [THEN conjunct2, THEN conjunct2, THEN conjunct1] keir
    by (simp add: demo_flow_def)
  show ?thesis using a b by blast
qed

text \<open>
  The claim as it was written has every exception of the run caught. A cancellation
  delivered while the driver waits for the next event is not an instance of
  \<open>Exception\<close>, and it reaches the caller.
\<close>

theorem research_person_catches_everything_counterexample:
  "ret (research_person
       (demo_run [Emit (text_event False ''A''), Raise (BaseExceptionOnly ''CancelledError'' [])])
       ''Keir Starmer'') = Inl (BaseExceptionOnly ''CancelledError'' [])"
  by (simp add: research_person_demo_run [OF refl] text_event_def research_handler_def)

end
